theory Spec2Isabelle
  imports Complex_Main "HOL-Library.Word" "HOL-Library.Sublist" "HOL-Library.Log_Nat"
begin

unbundle bit_operations_syntax

section \<open>Bytes, hexadecimal text and SHA-256\<close>

text \<open>
  Python's \<^verbatim>\<open>bytes\<close> are lists of 8-bit words. Python's \<^verbatim>\<open>str\<close> is \<open>string\<close>, a list of
  characters with code points below 256.
  \<^verbatim>\<open>b.hex()\<close> and \<^verbatim>\<open>hexdigest()\<close> write two lower-case digits per byte;
  \<^verbatim>\<open>bytes.fromhex(s)\<close> skips ASCII white space between bytes, reads digits of either
  case in pairs and raises \<^verbatim>\<open>ValueError\<close> on anything else.
\<close>

type_synonym byte = "8 word"
type_synonym bytes = "byte list"
type_synonym u32 = "32 word"

datatype py_error =
    ValueError | IndexError | UnboundLocalError | FileNotFoundError | JSONDecodeError
  | OverflowError | NameError

definition hexdigit :: "nat \<Rightarrow> char" where
  "hexdigit n = ''0123456789abcdef'' ! n"

definition hex_byte :: "byte \<Rightarrow> string" where
  "hex_byte b = [hexdigit (unat b div 16), hexdigit (unat b mod 16)]"

definition hex :: "bytes \<Rightarrow> string" where
  "hex bs = concat (map hex_byte bs)"

definition hexval :: "char \<Rightarrow> nat option" where
  "hexval c = (let n = (of_char c :: nat) in
     if 48 \<le> n \<and> n \<le> 57 then Some (n - 48)
     else if 97 \<le> n \<and> n \<le> 102 then Some (n - 87)
     else if 65 \<le> n \<and> n \<le> 70 then Some (n - 55)
     else None)"

definition py_isspace :: "char \<Rightarrow> bool" where
  "py_isspace c = ((of_char c :: nat) \<in> {9, 10, 11, 12, 13, 32})"

fun fromhex :: "string \<Rightarrow> bytes option" where
  "fromhex [] = Some []"
| "fromhex (c # cs) =
     (if py_isspace c then fromhex cs
      else (case cs of
              [] \<Rightarrow> None
            | d # ds \<Rightarrow>
                (case (hexval c, hexval d) of
                   (Some h, Some l) \<Rightarrow> map_option ((#) (of_nat (16 * h + l))) (fromhex ds)
                 | _ \<Rightarrow> None)))"

subsection \<open>SHA-256 (hashlib.sha256), after FIPS 180-4\<close>

definition Ch :: "u32 \<Rightarrow> u32 \<Rightarrow> u32 \<Rightarrow> u32" where
  "Ch x y z = (x AND y) XOR (NOT x AND z)"

definition Maj :: "u32 \<Rightarrow> u32 \<Rightarrow> u32 \<Rightarrow> u32" where
  "Maj x y z = (x AND y) XOR (x AND z) XOR (y AND z)"

definition bsig0 :: "u32 \<Rightarrow> u32" where
  "bsig0 x = word_rotr 2 x XOR word_rotr 13 x XOR word_rotr 22 x"

definition bsig1 :: "u32 \<Rightarrow> u32" where
  "bsig1 x = word_rotr 6 x XOR word_rotr 11 x XOR word_rotr 25 x"

definition ssig0 :: "u32 \<Rightarrow> u32" where
  "ssig0 x = word_rotr 7 x XOR word_rotr 18 x XOR drop_bit 3 x"

definition ssig1 :: "u32 \<Rightarrow> u32" where
  "ssig1 x = word_rotr 17 x XOR word_rotr 19 x XOR drop_bit 10 x"

definition K256 :: "u32 list" where
  "K256 =
   [0x428A2F98, 0x71374491, 0xB5C0FBCF, 0xE9B5DBA5, 0x3956C25B, 0x59F111F1,
    0x923F82A4, 0xAB1C5ED5, 0xD807AA98, 0x12835B01, 0x243185BE, 0x550C7DC3,
    0x72BE5D74, 0x80DEB1FE, 0x9BDC06A7, 0xC19BF174, 0xE49B69C1, 0xEFBE4786,
    0x0FC19DC6, 0x240CA1CC, 0x2DE92C6F, 0x4A7484AA, 0x5CB0A9DC, 0x76F988DA,
    0x983E5152, 0xA831C66D, 0xB00327C8, 0xBF597FC7, 0xC6E00BF3, 0xD5A79147,
    0x06CA6351, 0x14292967, 0x27B70A85, 0x2E1B2138, 0x4D2C6DFC, 0x53380D13,
    0x650A7354, 0x766A0ABB, 0x81C2C92E, 0x92722C85, 0xA2BFE8A1, 0xA81A664B,
    0xC24B8B70, 0xC76C51A3, 0xD192E819, 0xD6990624, 0xF40E3585, 0x106AA070,
    0x19A4C116, 0x1E376C08, 0x2748774C, 0x34B0BCB5, 0x391C0CB3, 0x4ED8AA4A,
    0x5B9CCA4F, 0x682E6FF3, 0x748F82EE, 0x78A5636F, 0x84C87814, 0x8CC70208,
    0x90BEFFFA, 0xA4506CEB, 0xBEF9A3F7, 0xC67178F2]"

type_synonym hstate = "u32 \<times> u32 \<times> u32 \<times> u32 \<times> u32 \<times> u32 \<times> u32 \<times> u32"

definition H256 :: hstate where
  "H256 = (0x6A09E667, 0xBB67AE85, 0x3C6EF372, 0xA54FF53A,
           0x510E527F, 0x9B05688C, 0x1F83D9AB, 0x5BE0CD19)"

text \<open>Padding: the byte 0x80, zero bytes up to 56 modulo 64, the bit length on 8 bytes.\<close>

definition length_bytes :: "64 word \<Rightarrow> bytes" where
  "length_bytes n =
     [ucast (drop_bit 56 n), ucast (drop_bit 48 n), ucast (drop_bit 40 n), ucast (drop_bit 32 n),
      ucast (drop_bit 24 n), ucast (drop_bit 16 n), ucast (drop_bit 8 n), ucast n]"

definition pad :: "bytes \<Rightarrow> bytes" where
  "pad m = m @ [0x80] @ replicate ((119 - length m mod 64) mod 64) 0
             @ length_bytes (8 * of_nat (length m))"

fun be_words :: "bytes \<Rightarrow> u32 list" where
  "be_words (a # b # c # d # rest) =
     (push_bit 24 (ucast a) OR push_bit 16 (ucast b) OR push_bit 8 (ucast c) OR ucast d)
       # be_words rest"
| "be_words _ = []"

fun blocks :: "bytes \<Rightarrow> bytes list" where
  "blocks [] = []"
| "blocks (b # bs) = take 64 (b # bs) # blocks (drop 64 (b # bs))"

fun schedule :: "nat \<Rightarrow> u32 list \<Rightarrow> u32 list" where
  "schedule 0 w = w"
| "schedule (Suc n) w =
     schedule n (w @ [ssig1 (w ! (length w - 2)) + w ! (length w - 7)
                       + ssig0 (w ! (length w - 15)) + w ! (length w - 16)])"

definition round256 :: "hstate \<Rightarrow> u32 \<times> u32 \<Rightarrow> hstate" where
  "round256 s kw =
     (case s of (a, b, c, d, e, f, g, h) \<Rightarrow>
        let t1 = h + bsig1 e + Ch e f g + fst kw + snd kw;
            t2 = bsig0 a + Maj a b c
        in (t1 + t2, a, b, c, d + t1, e, f, g))"

definition compress :: "hstate \<Rightarrow> bytes \<Rightarrow> hstate" where
  "compress s blk =
     (case (s, foldl round256 s (zip K256 (schedule 48 (be_words blk)))) of
        ((a, b, c, d, e, f, g, h), (a', b', c', d', e', f', g', h')) \<Rightarrow>
          (a + a', b + b', c + c', d + d', e + e', f + f', g + g', h + h'))"

definition word_bytes :: "u32 \<Rightarrow> bytes" where
  "word_bytes w = [ucast (drop_bit 24 w), ucast (drop_bit 16 w), ucast (drop_bit 8 w), ucast w]"

definition digest_bytes :: "hstate \<Rightarrow> bytes" where
  "digest_bytes s =
     (case s of (a, b, c, d, e, f, g, h) \<Rightarrow>
        word_bytes a @ word_bytes b @ word_bytes c @ word_bytes d
          @ word_bytes e @ word_bytes f @ word_bytes g @ word_bytes h)"

definition sha256 :: "bytes \<Rightarrow> bytes" where
  "sha256 m = digest_bytes (foldl compress H256 (blocks (pad m)))"

definition hexdigest :: "bytes \<Rightarrow> string" where
  "hexdigest m = hex (sha256 m)"

text \<open>
  \<^verbatim>\<open>str.encode()\<close> is UTF-8: one byte for a code point below 128, two bytes for the
  others.
\<close>

definition utf8 :: "char \<Rightarrow> bytes" where
  "utf8 c = (let n = (of_char c :: nat) in
     if n < 128 then [of_nat n] else [of_nat (192 + n div 64), of_nat (128 + n mod 64)])"

definition encode :: "string \<Rightarrow> bytes" where
  "encode s = concat (map utf8 s)"

section \<open>PSBTgen.py: the step chain\<close>

text \<open>
  \<^verbatim>\<open>BitVM.step_chain(seed, steps)\<close>: the list starts as \<^verbatim>\<open>[seed]\<close>, each of the
  \<^verbatim>\<open>range(steps)\<close> rounds appends the digest of the last element, and the list is
  returned reversed (\<^verbatim>\<open>chain[::-1]\<close>). \<^verbatim>\<open>range\<close> of a negative number is empty.
\<close>

fun chain_loop :: "nat \<Rightarrow> bytes list \<Rightarrow> bytes list" where
  "chain_loop 0 chain = chain"
| "chain_loop (Suc k) chain = chain_loop k (chain @ [sha256 (last chain)])"

definition BitVM_step_chain :: "bytes \<Rightarrow> int \<Rightarrow> bytes list" where
  "BitVM_step_chain seed steps = rev (chain_loop (nat steps) [seed])"

section \<open>BitVM.py: verification of a stored step chain\<close>

text \<open>
  Lines 145 to 148 of \<^verbatim>\<open>process_challenge\<close>:
  \<^verbatim>\<open>all(sha256(bytes.fromhex(step_data[i])).hexdigest() == step_data[i + 1]
      for i in range(len(step_data) - 1))\<close>.
  \<^verbatim>\<open>all\<close> stops at the first pair that fails; \<^verbatim>\<open>bytes.fromhex\<close> raises
  \<^verbatim>\<open>ValueError\<close> when it reaches an element that is not hexadecimal text.
\<close>

fun verify_chain :: "string list \<Rightarrow> py_error + bool" where
  "verify_chain (a # b # rest) =
     (case fromhex a of
        None \<Rightarrow> Inl ValueError
      | Some bs \<Rightarrow> if hexdigest bs = b then verify_chain (b # rest) else Inr False)"
| "verify_chain _ = Inr True"

text \<open>The hash relation between two adjacent stored elements, as line 146 compares them.\<close>

definition hash_link :: "string \<Rightarrow> string \<Rightarrow> bool" where
  "hash_link a b = (map_option hexdigest (fromhex a) = Some b)"

text \<open>Every adjacent pair of the stored list, in its order, satisfies the hash relation.\<close>

definition adjacent_pairs :: "string list \<Rightarrow> (string \<times> string) list" where
  "adjacent_pairs chain = zip chain (tl chain)"

definition linked :: "string list \<Rightarrow> bool" where
  "linked chain = (\<forall>(a, b)\<in>set (adjacent_pairs chain). hash_link a b)"

section \<open>BitVM.py: block records and the files of the block directory\<close>

text \<open>
  A rollup block is a JSON object. The record has one optional field for each key the
  watcher reads (\<open>None\<close>: the key is absent, so \<^verbatim>\<open>block.get(key)\<close> is \<^verbatim>\<open>None\<close>) and
  keeps the rollup's own keys, which no code path reads, in \<open>extra\<close>.
\<close>

record block =
  step_chain :: "string list option"
  challenged :: "bool option"
  proof_generated :: "bool option"
  proof_verified :: "bool option"
  ipfs_hash :: "string option"
  ipfs_hashes :: "string list option"
  extra :: "(string \<times> string) list"

definition empty_block :: block where
  "empty_block = \<lparr>step_chain = None, challenged = None, proof_generated = None,
     proof_verified = None, ipfs_hash = None, ipfs_hashes = None, extra = []\<rparr>"


datatype tapleaf = Tapleaf (leaf_name: string) (leaf_script: string) (leaf_version: string)

datatype log = Log (log_ipfs_hash: string) (log_txid: string) (log_commitment: string)
  (log_timestamp: real)

text \<open>
  What a JSON file of the block directory holds: a block record, or one of the artifacts
  \<^verbatim>\<open>process_challenge\<close> writes beside it (the \<^verbatim>\<open>_proof.json\<close>, \<^verbatim>\<open>_tree.json\<close> and
  \<^verbatim>\<open>_log.json\<close> files). File names are relative to \<^verbatim>\<open>db_path\<close>.
\<close>

datatype db_file =
    BlockFile block
  | ProofFile (proof_steps: "string list option") (proof_flag: bool)
  | TreeFile (tapleaf_tree: "tapleaf list")
  | LogFile log

type_synonym dir = "string \<rightharpoonup> db_file"

text \<open>
  \<^verbatim>\<open>json.load\<close> of a file, read through the block's keys: an artifact file has none of
  them, except the \<^verbatim>\<open>ipfs_hash\<close> key of a log file.
\<close>

fun as_block :: "db_file \<Rightarrow> block" where
  "as_block (BlockFile b) = b"
| "as_block (ProofFile steps v) = empty_block"
| "as_block (TreeFile leaves) = empty_block"
| "as_block (LogFile l) = empty_block\<lparr>ipfs_hash := Some (log_ipfs_hash l)\<rparr>"

text \<open>
  \<^verbatim>\<open>Path.stem\<close>: the name up to its last dot, unless there is no dot or the dot is the
  first or the last character.
\<close>

definition stem :: "string \<Rightarrow> string" where
  "stem nm =
     (let suf = takeWhile (\<lambda>c. c \<noteq> CHR ''.'') (rev nm)
      in if length suf = length nm \<or> suf = [] \<or> Suc (length suf) = length nm then nm
         else take (length nm - Suc (length suf)) nm)"

definition proof_out :: "string \<Rightarrow> string" where
  "proof_out file_path = stem file_path @ ''_proof.json''"

definition tree_file :: "string \<Rightarrow> string" where
  "tree_file file_path = stem file_path @ ''_tree.json''"

definition log_file :: "string \<Rightarrow> string" where
  "log_file file_path = stem file_path @ ''_log.json''"

definition block_file_name :: "string \<Rightarrow> string" where
  "block_file_name block_id = ''rollup_block_'' @ block_id @ ''.json''"

text \<open>The pattern \<^verbatim>\<open>rollup_block_*.json\<close> of \<^verbatim>\<open>glob\<close>.\<close>

definition glob_match :: "string \<Rightarrow> bool" where
  "glob_match nm =
     (prefix ''rollup_block_'' nm \<and> suffix ''.json'' nm \<and> 18 \<le> length nm)"

subsection \<open>process\_challenge\<close>

text \<open>
  The statements of \<^verbatim>\<open>process_challenge\<close> are taken in their textual order. (Lines 153,
  182, 227 and 235 are indented deeper than the statements around them, and the
  \<^verbatim>\<open>else\<close> of line 225 has its body at its own depth.)
\<close>

fun str_nat :: "nat \<Rightarrow> string" where
  "str_nat n = (if n < 10 then [hexdigit n] else str_nat (n div 10) @ [hexdigit (n mod 10)])"

text \<open>Lines 162 to 170: one descriptor for each element that \<^verbatim>\<open>enumerate\<close> yields.\<close>

fun tapleaves :: "nat \<Rightarrow> string list \<Rightarrow> tapleaf list" where
  "tapleaves i [] = []"
| "tapleaves i (step # steps) =
     Tapleaf (''step_'' @ str_nat i) (''OP_SHA256 '' @ step @ '' OP_EQUAL'') ''c0''
       # tapleaves (Suc i) steps"

definition step_data :: "block \<Rightarrow> string list" where
  "step_data blk = (case step_chain blk of None \<Rightarrow> [] | Some c \<Rightarrow> c)"

definition script_tree :: "block \<Rightarrow> tapleaf list" where
  "script_tree blk = tapleaves 0 (step_data blk)"

text \<open>
  \<^verbatim>\<open>block.get("ipfs_hashes") or [block.get("ipfs_hash")]\<close>, then the empty entries
  filtered out (lines 175 to 176 and 219 to 220).
\<close>

definition hashes_of :: "block \<Rightarrow> string list" where
  "hashes_of blk =
     filter (\<lambda>h. h \<noteq> [])
       (case ipfs_hashes blk of
          Some (h # hs) \<Rightarrow> h # hs
        | _ \<Rightarrow> (case ipfs_hash blk of None \<Rightarrow> [] | Some h \<Rightarrow> [h]))"

fun join :: "string \<Rightarrow> string list \<Rightarrow> string" where
  "join sep [] = []"
| "join sep [x] = x"
| "join sep (x # y # ys) = x @ sep @ join sep (y # ys)"

text \<open>Lines 177 to 180: at most four handles, joined by spaces, cut at 80 characters.\<close>

definition op_return_script :: "block \<Rightarrow> string" where
  "op_return_script blk =
     (let op_returns = hashes_of blk;
          op_returns = (if 4 < length op_returns then take 4 op_returns else op_returns)
      in take 80 (join '' '' op_returns))"

text \<open>Lines 219 to 226: the commitment that the log records.\<close>

definition commitment_of :: "block \<Rightarrow> bytes" where
  "commitment_of blk =
     (if hashes_of blk \<noteq> [] then sha256 (encode (concat (hashes_of blk)))
      else sha256 (encode (concat (step_data blk))))"

text \<open>
  Lines 208 to 216, the scan of the outputs of the broadcast transaction. Each output is
  given by the \<^verbatim>\<open>asm\<close> text of its script (empty when absent). The local variable
  \<^verbatim>\<open>commitment\<close> is \<open>None\<close> while no assignment has bound it; reading it then raises
  \<^verbatim>\<open>UnboundLocalError\<close>. The right operand of \<^verbatim>\<open>and\<close> is evaluated only when the
  script starts with \<^verbatim>\<open>OP_RETURN\<close>.
\<close>

fun scan_outputs :: "bytes option \<Rightarrow> string list \<Rightarrow> py_error + bool" where
  "scan_outputs commitment [] = Inr False"
| "scan_outputs commitment (scr # outputs) =
     (if prefix ''OP_RETURN'' scr then
        (case commitment of
           None \<Rightarrow> Inl UnboundLocalError
         | Some c \<Rightarrow> if sublist (hex c) scr then Inr True else scan_outputs commitment outputs)
      else scan_outputs commitment outputs)"

text \<open>
  What the external signer, the node and the clock answer for one block: an exception
  somewhere between lines 191 and 206, or the outputs of the broadcast transaction.
\<close>

datatype signing =
    SigningFailed
  | Broadcast string string "string list" real

text \<open>
  Lines 185 to 238. The scan of line 209 runs before line 224 or 226 binds
  \<^verbatim>\<open>commitment\<close>, so it is called with \<open>None\<close>; every exception ends the \<^verbatim>\<open>try\<close> block
  without a log file. The arguments of \<open>Broadcast\<close> are \<^verbatim>\<open>tx_hex\<close>, \<^verbatim>\<open>txid\<close>, the
  \<^verbatim>\<open>asm\<close> texts of \<^verbatim>\<open>tx_info["vout"]\<close> and the reading of \<^verbatim>\<open>time.time()\<close>.
\<close>

definition sign_and_log :: "signing \<Rightarrow> block \<Rightarrow> string \<Rightarrow> dir \<Rightarrow> dir" where
  "sign_and_log ext blk file_path fs =
     (case ext of
        SigningFailed \<Rightarrow> fs
      | Broadcast tx_hex txid outputs now \<Rightarrow>
          (case scan_outputs None outputs of
             Inl e \<Rightarrow> fs
           | Inr found_opreturn \<Rightarrow>
               fs(log_file file_path \<mapsto>
                  LogFile (Log (case hashes_of blk of [] \<Rightarrow> ''N/A'' | h # hs \<Rightarrow> h) txid
                            (hex (commitment_of blk)) now))))"

definition process_challenge :: "signing \<Rightarrow> block \<Rightarrow> string \<Rightarrow> dir \<Rightarrow> py_error + dir" where
  "process_challenge ext blk file_path fs =
     (case verify_chain (step_data blk) of
        Inl e \<Rightarrow> Inl e
      | Inr verified \<Rightarrow>
          let blk = blk\<lparr>proof_verified := Some verified, proof_generated := Some True\<rparr>;
              fs = fs(file_path \<mapsto> BlockFile blk);
              fs = fs(proof_out file_path \<mapsto> ProofFile (step_chain blk) verified);
              fs = fs(tree_file file_path \<mapsto> TreeFile (script_tree blk))
          in Inr (sign_and_log ext blk file_path fs))"

subsection \<open>watch\_for\_challenges\<close>








section \<open>BitVM.py: the block store\<close>

text \<open>
  The state of a \<^verbatim>\<open>BitVMProofBuilder\<close>: the commit history (written to
  \<^verbatim>\<open>ipfs_commit_history.json\<close> after every append) and the block directory.
\<close>

record store =
  history :: "(string \<times> real) list"
  db :: dir

text \<open>
  What the collaborators answer during one call of \<^verbatim>\<open>store_rollup_block\<close>: whether
  \<^verbatim>\<open>shutil.which("ipfs")\<close> finds the tool, the stripped output of \<^verbatim>\<open>ipfs add -q\<close>,
  whether \<^verbatim>\<open>ipfs pin add\<close> exits with status zero, the status code of the cluster's
  answer (\<open>None\<close> when the request raises) and the reading of \<^verbatim>\<open>time.time()\<close>.
\<close>

record ipfs_env =
  ipfs_found :: bool
  add_stdout :: string
  pin_add_ok :: bool
  cluster_status :: "nat option"
  time_now :: real

text \<open>
  \<^verbatim>\<open>pin_to_ipfs\<close> catches every exception and returns nothing; all it does is print.
  The model returns the lines printed.
\<close>

definition pin_to_ipfs :: "ipfs_env \<Rightarrow> string \<Rightarrow> string list" where
  "pin_to_ipfs env h =
     (if \<not> pin_add_ok env then [''IPFS pinning error'']
      else ''IPFS hash pinned locally'' #
        (case cluster_status env of
           None \<Rightarrow> [''IPFS pinning error'']
         | Some code \<Rightarrow>
             if code = 202 then [''Cluster pin request accepted'']
             else [''Cluster pin request failed'']))"

text \<open>The content is pinned: the local pin succeeded and the cluster accepted the request.\<close>

definition pinned :: "ipfs_env \<Rightarrow> bool" where
  "pinned env = (pin_add_ok env \<and> cluster_status env = Some 202)"

text \<open>
  \<^verbatim>\<open>store_rollup_block\<close> (lines 104 to 121). \<open>dumps\<close> is \<^verbatim>\<open>json.dumps\<close>. The temporary
  file \<^verbatim>\<open>_tmp_block.json\<close> is written and unlinked outside the block directory.
  \<^verbatim>\<open>block_id or ...\<close> takes the computed id when the argument is \<^verbatim>\<open>None\<close> or empty.
\<close>

definition content_id :: "(block \<Rightarrow> string) \<Rightarrow> block \<Rightarrow> string" where
  "content_id dumps block_data = take 16 (hexdigest (encode (dumps block_data)))"

definition store_rollup_block ::
  "(block \<Rightarrow> string) \<Rightarrow> ipfs_env \<Rightarrow> block \<Rightarrow> string option \<Rightarrow> store \<Rightarrow> string \<times> store" where
  "store_rollup_block dumps env block_data block_id st =
     (let st = (if ipfs_found env then
                  (let printed = pin_to_ipfs env (add_stdout env)
                   in st\<lparr>history := history st @ [(add_stdout env, time_now env)]\<rparr>)
                else st);
          block_id = (case block_id of
                        None \<Rightarrow> content_id dumps block_data
                      | Some s \<Rightarrow> if s = [] then content_id dumps block_data else s)
      in (block_id, st\<lparr>db := (db st)(block_file_name block_id \<mapsto> BlockFile block_data)\<rparr>))"

definition load_block :: "store \<Rightarrow> string \<Rightarrow> py_error + block" where
  "load_block st block_id =
     (case db st (block_file_name block_id) of
        None \<Rightarrow> Inl FileNotFoundError
      | Some f \<Rightarrow> Inr (as_block f))"

text \<open>
  \<^verbatim>\<open>fetch_from_ipfs\<close> (lines 25 to 41). \<^verbatim>\<open>subprocess.run\<close> raises
  \<^verbatim>\<open>FileNotFoundError\<close> when there is no \<^verbatim>\<open>ipfs\<close> tool to run. When there is one, the
  collaborator's answer is the record that \<^verbatim>\<open>json.load\<close> returns, or the exception
  raised before that (no file, no JSON). The \<^verbatim>\<open>except\<close> clause turns every exception
  into the empty dict. The argument \<open>requested\<close> is the parameter \<^verbatim>\<open>ipfs_hash\<close> of the
  source.
\<close>

datatype fetched = FetchRaised py_error | Fetched block

definition fetch_from_ipfs ::
  "(block \<Rightarrow> string) \<Rightarrow> ipfs_env \<Rightarrow> fetched \<Rightarrow> string \<Rightarrow> store \<Rightarrow> block \<times> store" where
  "fetch_from_ipfs dumps env got requested st =
     (if ipfs_found env then
        (case got of
           FetchRaised e \<Rightarrow> (empty_block, st)
         | Fetched block_data \<Rightarrow>
             let expected = take 16 requested;
                 actual = take 16 (hexdigest (encode (dumps block_data)));
                 printed = (if expected \<noteq> actual then ''Hash mismatch''
                            else ''IPFS hash matches block content'')
             in (block_data, snd (store_rollup_block dumps env block_data (Some actual) st)))
      else (empty_block, st))"

section \<open>The transaction library: scripts, outpoints, inputs and outputs\<close>

text \<open>
  The constructors of \<^verbatim>\<open>bitcointx.core\<close> that both scripts call. \<^verbatim>\<open>lx(h)\<close> is the
  bytes of the hexadecimal text, read strictly in pairs, reversed. \<^verbatim>\<open>COutPoint(hash, n)\<close>
  raises \<^verbatim>\<open>ValueError\<close> unless the hash has exactly 32 bytes and \<open>0 \<le> n \<le> 0xffffffff\<close>;
  \<^verbatim>\<open>CTxIn\<close> raises it unless \<open>0 \<le> nSequence \<le> 0xffffffff\<close>; \<^verbatim>\<open>CTxOut\<close> takes any
  integer value.
\<close>

datatype opcode =
    OP_CHECKSIGVERIFY | OP_CHECKSEQUENCEVERIFY | OP_EQUAL | OP_RETURN
  | OP_IF | OP_ELSE | OP_ENDIF | OP_SHA256 | OP_CHECKSIG

datatype script_item = Op opcode | Data bytes | Num int

type_synonym cscript = "script_item list"

fun unhexlify :: "string \<Rightarrow> bytes option" where
  "unhexlify [] = Some []"
| "unhexlify [c] = None"
| "unhexlify (c # d # rest) =
     (case (hexval c, hexval d) of
        (Some h, Some l) \<Rightarrow> map_option ((#) (of_nat (16 * h + l))) (unhexlify rest)
      | _ \<Rightarrow> None)"

definition lx :: "string \<Rightarrow> py_error + bytes" where
  "lx h = (case unhexlify h of None \<Rightarrow> Inl ValueError | Some bs \<Rightarrow> Inr (rev bs))"

datatype outpoint = OutPoint (outpoint_hash: bytes) (outpoint_n: int)

definition COutPoint :: "bytes \<Rightarrow> int \<Rightarrow> py_error + outpoint" where
  "COutPoint h n =
     (if length h = 32 then
        (if 0 \<le> n \<and> n \<le> 0xFFFFFFFF then Inr (OutPoint h n) else Inl ValueError)
      else Inl ValueError)"

datatype txin = TxIn (prevout: outpoint) (nSequence: int)

definition CTxIn :: "outpoint \<Rightarrow> int \<Rightarrow> py_error + txin" where
  "CTxIn p s = (if 0 \<le> s \<and> s \<le> 0xFFFFFFFF then Inr (TxIn p s) else Inl ValueError)"

datatype txout = CTxOut (nValue: int) (scriptPubKey: cscript)

datatype transaction = CTransaction (vin: "txin list") (vout: "txout list")

section \<open>PSBTgen.py: leaves, tree and spending transactions\<close>

datatype taproot_leaf = TaprootLeaf cscript

datatype taproot_tree = TaprootScriptTree (leaves: "taproot_leaf list")

text \<open>
  A name of the script is bound to a value or not bound at all, and reading a name that
  no import and no assignment has bound raises \<^verbatim>\<open>NameError\<close>. A statement that reads
  such a name takes the binding as an argument, \<open>None\<close> for a name that is not bound.
  \<^verbatim>\<open>PSBTgen.py\<close> has two: \<^verbatim>\<open>OP_1\<close> at line 42 (the import of line 3 does not list it)
  and \<^verbatim>\<open>txout\<close> at line 84.
\<close>

text \<open>
  Lines 39 to 47: the items of the list are evaluated from left to right, so \<^verbatim>\<open>OP_1\<close>
  is read after the names before it, which are all bound. The public keys are byte
  strings.
\<close>

definition step_script ::
  "script_item option \<Rightarrow> bytes \<Rightarrow> bytes \<Rightarrow> bytes \<Rightarrow> bytes \<Rightarrow> int \<Rightarrow> py_error + cscript" where
  "step_script op_1 challenger_pub operator_pub current_data expected_hash timeout =
     (case op_1 of
        None \<Rightarrow> Inl NameError
      | Some one \<Rightarrow>
          Inr [Data challenger_pub, Op OP_CHECKSIGVERIFY,
               Data current_data, Op OP_SHA256, Data expected_hash, Op OP_EQUAL, Op OP_IF,
                 one,
               Op OP_ELSE,
                 Num timeout, Op OP_CHECKSEQUENCEVERIFY,
                 Data operator_pub, Op OP_CHECKSIGVERIFY,
               Op OP_ENDIF])"

text \<open>
  Lines 34 to 48, for the indices of \<^verbatim>\<open>range(len(chain) - 1)\<close>. \<^verbatim>\<open>chain[i+1]\<close> and
  \<^verbatim>\<open>timeouts[i]\<close> raise \<^verbatim>\<open>IndexError\<close> past the end of their list.
\<close>

fun scripts_loop ::
  "script_item option \<Rightarrow> bytes \<Rightarrow> bytes \<Rightarrow> bytes list \<Rightarrow> int list \<Rightarrow> nat list
     \<Rightarrow> taproot_leaf list \<Rightarrow> py_error + taproot_leaf list" where
  "scripts_loop op_1 cp opk chain timeouts [] scripts = Inr scripts"
| "scripts_loop op_1 cp opk chain timeouts (i # rest) scripts =
     (if Suc i < length chain \<and> i < length timeouts then
        (case step_script op_1 cp opk (chain ! Suc i) (chain ! i) (timeouts ! i) of
           Inl e \<Rightarrow> Inl e
         | Inr script \<Rightarrow>
             scripts_loop op_1 cp opk chain timeouts rest (scripts @ [TaprootLeaf script]))
      else Inl IndexError)"

definition build_scripts ::
  "script_item option \<Rightarrow> bytes \<Rightarrow> bytes \<Rightarrow> bytes list \<Rightarrow> int list
     \<Rightarrow> py_error + taproot_leaf list" where
  "build_scripts op_1 cp opk chain timeouts =
     scripts_loop op_1 cp opk chain timeouts [0..<length chain - 1] []"

definition leaf_op :: "bytes \<Rightarrow> taproot_leaf" where
  "leaf_op operator_pub =
     TaprootLeaf [Data operator_pub, Op OP_CHECKSIGVERIFY, Num 300, Op OP_CHECKSEQUENCEVERIFY]"

text \<open>Lines 34 to 54: the leaves of the steps, then the tree with the fallback leaf first.\<close>

definition build_tree ::
  "script_item option \<Rightarrow> bytes \<Rightarrow> bytes \<Rightarrow> bytes list \<Rightarrow> int list \<Rightarrow> py_error + taproot_tree" where
  "build_tree op_1 cp opk chain timeouts =
     (case build_scripts op_1 cp opk chain timeouts of
        Inl e \<Rightarrow> Inl e
      | Inr scripts \<Rightarrow> Inr (TaprootScriptTree (leaf_op opk # scripts)))"

text \<open>The constants of lines 69 to 72.\<close>

definition prev_txid :: string where
  "prev_txid = ''9d5d817f9f8f6952962d967edfc95e9cf0c72f4cb91a6caca03e4efc70cd4342''"

definition amount_sats :: int where
  "amount_sats = 21000000000"

definition fee :: int where
  "fee = 1000"

text \<open>
  Lines 76 to 79. \<^verbatim>\<open>to_bytes(4, 'big')\<close> raises \<^verbatim>\<open>OverflowError\<close> when the clock reading
  does not fit 4 bytes, and \<^verbatim>\<open>bytes([i+1])\<close> raises \<^verbatim>\<open>ValueError\<close> from 256 on.
\<close>

definition log_data :: "nat \<Rightarrow> bytes \<Rightarrow> nat \<Rightarrow> py_error + bytes" where
  "log_data i current_data now =
     (if now < 2 ^ 32 then
        (if Suc i < 256 then
           Inr (encode ''Step'' @ [of_nat (Suc i)] @ encode ''|'' @ encode ''user42''
                  @ encode ''|'' @ take 4 (sha256 current_data) @ encode ''|''
                  @ word_bytes (of_nat now))
         else Inl ValueError)
      else Inl OverflowError)"

definition txout_main :: "cscript \<Rightarrow> txout" where
  "txout_main taproot_spk = CTxOut (amount_sats - fee) taproot_spk"

definition txout_log :: "bytes \<Rightarrow> txout" where
  "txout_log data = CTxOut 0 [Op OP_RETURN, Data data]"

text \<open>
  Lines 64 to 84, one round of the loop over the leaves, up to the transaction that the
  rest of the round signs. \<open>taproot_spk\<close> is \<^verbatim>\<open>taproot_addr.to_scriptPubKey()\<close> and \<open>now\<close>
  the reading of \<^verbatim>\<open>int(time.time())\<close>. Line 83 builds the transaction with the main
  output and the log output; line 84 rebinds \<^verbatim>\<open>tx\<close> at once, from the name \<^verbatim>\<open>txout\<close>.
\<close>

definition spend_step ::
  "txout option \<Rightarrow> cscript \<Rightarrow> bytes list \<Rightarrow> int list \<Rightarrow> nat \<Rightarrow> nat \<Rightarrow> py_error + transaction" where
  "spend_step txout taproot_spk chain timeouts now i =
     (if Suc i < length chain then
        (case lx prev_txid of
           Inl e \<Rightarrow> Inl e
         | Inr h \<Rightarrow>
        (case COutPoint h 1 of
           Inl e \<Rightarrow> Inl e
         | Inr p \<Rightarrow>
        (if i < length timeouts then
        (case CTxIn p (timeouts ! i) of
           Inl e \<Rightarrow> Inl e
         | Inr txin \<Rightarrow>
        (case log_data i (chain ! Suc i) now of
           Inl e \<Rightarrow> Inl e
         | Inr data \<Rightarrow>
             let tx = CTransaction [txin] [txout_main taproot_spk, txout_log data]
             in (case txout of
                   None \<Rightarrow> Inl NameError
                 | Some out \<Rightarrow> Inr (CTransaction [txin] [out]))))
         else Inl IndexError)))
      else Inl IndexError)"

text \<open>Lines 63 to 107 for the indices that \<^verbatim>\<open>enumerate(scripts)\<close> yields.\<close>

fun spend_loop ::
  "txout option \<Rightarrow> cscript \<Rightarrow> bytes list \<Rightarrow> int list \<Rightarrow> (nat \<Rightarrow> nat) \<Rightarrow> nat list
     \<Rightarrow> transaction list \<Rightarrow> py_error + transaction list" where
  "spend_loop txout taproot_spk chain timeouts clock [] txs = Inr txs"
| "spend_loop txout taproot_spk chain timeouts clock (i # rest) txs =
     (case spend_step txout taproot_spk chain timeouts (clock i) i of
        Inl e \<Rightarrow> Inl e
      | Inr tx \<Rightarrow> spend_loop txout taproot_spk chain timeouts clock rest (txs @ [tx]))"

text \<open>
  The script from line 30 to line 107, as it stands: \<^verbatim>\<open>OP_1\<close> and \<^verbatim>\<open>txout\<close> are not
  bound. The two public keys are what the library derives from the secrets of lines 24
  and 26; \<open>to_scriptPubKey\<close> is the library's script of the address of lines 55 and 56,
  made from the internal key and the tree; \<open>clock i\<close> is the clock reading of round \<open>i\<close>.
  The result is the transactions of the rounds.
\<close>

definition PSBTgen ::
  "bytes \<Rightarrow> bytes \<Rightarrow> (bytes \<Rightarrow> taproot_tree \<Rightarrow> cscript) \<Rightarrow> (nat \<Rightarrow> nat)
     \<Rightarrow> py_error + transaction list" where
  "PSBTgen operator_pub challenger_pub to_scriptPubKey clock =
     (let chain = BitVM_step_chain (encode ''init'') 3;
          timeouts = [80, 160, 240]
      in case build_scripts None challenger_pub operator_pub chain timeouts of
           Inl e \<Rightarrow> Inl e
         | Inr scripts \<Rightarrow>
             let tree = TaprootScriptTree (leaf_op operator_pub # scripts)
             in spend_loop None (to_scriptPubKey operator_pub tree) chain timeouts clock
                  [0..<length scripts] [])"

section \<open>PSBTlib.py: the punishment transaction\<close>

text \<open>
  Python's \<^verbatim>\<open>float\<close> is the IEEE 754 binary64 format. A finite double is modelled by a
  pair \<open>(m, e)\<close> of integers that stands for \<open>m * 2 ^ e\<close>; the doubles are the pairs with
  \<open>\<bar>m\<bar> < 2 ^ 53\<close>, \<open>- 1074 \<le> e\<close> and a value below \<open>2 ^ 1024\<close>. The product of two
  doubles is the exact product rounded to the nearest double, ties to the even
  significand (\<open>rhe\<close>, \<open>fl\<close>); below \<open>2 ^ (- 1022)\<close> the spacing stays \<open>2 ^ (- 1074)\<close>, and
  a result of \<open>2 ^ 1024\<close> or more is the infinity (\<open>None\<close>), on which \<^verbatim>\<open>int\<close> raises
  \<^verbatim>\<open>OverflowError\<close>. \<^verbatim>\<open>int\<close> of a finite float truncates towards zero.
\<close>

type_synonym double = "int \<times> int"


definition rhe :: "int \<Rightarrow> nat \<Rightarrow> int" where
  "rhe m s =
     (let q = m div 2 ^ s; r = m mod 2 ^ s
      in if 2 * r < 2 ^ s then q
         else if 2 ^ s < 2 * r then q + 1
         else if even q then q else q + 1)"

definition fl :: "double \<Rightarrow> double option" where
  "fl x =
     (let m = fst x; e = snd x;
          s = max (bitlen \<bar>m\<bar> - 53) (- 1074 - e);
          y = (if s \<le> 0 then (m, e) else (rhe m (nat s), e + s))
      in if 1024 < bitlen \<bar>fst y\<bar> + snd y then None else Some y)"

definition fmul :: "double \<Rightarrow> double \<Rightarrow> double option" where
  "fmul x y = fl (fst x * fst y, snd x + snd y)"

definition trunc :: "double \<Rightarrow> int" where
  "trunc x =
     (let m = fst x; e = snd x
      in if 0 \<le> e then m * 2 ^ nat e
         else if 0 \<le> m then m div 2 ^ nat (- e) else - ((- m) div 2 ^ nat (- e)))"

definition py_int :: "double option \<Rightarrow> py_error + int" where
  "py_int x = (case x of None \<Rightarrow> Inl OverflowError | Some y \<Rightarrow> Inr (trunc y))"

text \<open>The literals \<^verbatim>\<open>0.9\<close>, \<^verbatim>\<open>0.1\<close> and \<^verbatim>\<open>1e8\<close>: the doubles nearest to them.\<close>

definition lit_0_9 :: double where
  "lit_0_9 = (8106479329266893, - 53)"

definition lit_0_1 :: double where
  "lit_0_1 = (7205759403792794, - 56)"

definition lit_1e8 :: double where
  "lit_1e8 = (100000000, 0)"

text \<open>
  \<^verbatim>\<open>amount * c * 1e8\<close> is \<^verbatim>\<open>(amount * c) * 1e8\<close>; an infinite first product stays
  infinite.
\<close>

definition times_1e8 :: "double option \<Rightarrow> double option" where
  "times_1e8 x = (case x of None \<Rightarrow> None | Some y \<Rightarrow> fmul y lit_1e8)"

datatype psbt_output = PSBTOutput int cscript

datatype psbt =
  PSBT (psbt_utxo: txout) (psbt_prevout: outpoint) (psbt_outputs: "psbt_output list")

definition output_script :: cscript where
  "output_script = [Data (3 # replicate 32 0), Op OP_CHECKSIG]"

text \<open>
  \<^verbatim>\<open>create_punishment_psbt\<close>, lines 21 to 34: the transaction that is then encoded,
  saved, and handed to the signer. The amount is a float; \<open>vout_n\<close> is the parameter
  \<^verbatim>\<open>vout\<close>. Line 23 converts the amount, line 24 reads the txid and builds the
  outpoint, lines 27 to 30 compute the two outputs.
\<close>

definition create_punishment_psbt :: "string \<Rightarrow> int \<Rightarrow> double \<Rightarrow> py_error + psbt" where
  "create_punishment_psbt txid vout_n amount =
     (case py_int (fmul amount lit_1e8) of
        Inl err \<Rightarrow> Inl err
      | Inr v \<Rightarrow>
     (case lx txid of
        Inl err \<Rightarrow> Inl err
      | Inr h \<Rightarrow>
     (case COutPoint h vout_n of
        Inl err \<Rightarrow> Inl err
      | Inr outpoint \<Rightarrow>
     (case py_int (times_1e8 (fmul amount lit_0_9)) of
        Inl err \<Rightarrow> Inl err
      | Inr o1 \<Rightarrow>
     (case py_int (times_1e8 (fmul amount lit_0_1)) of
        Inl err \<Rightarrow> Inl err
      | Inr o2 \<Rightarrow>
          Inr (PSBT (CTxOut v output_script) outpoint
                 [PSBTOutput o1 output_script, PSBTOutput o2 output_script]))))))"


section \<open>Properties\<close>

subsection \<open>Hexadecimal text and digests\<close>

lemma hexval_hexdigit: "n < 16 \<Longrightarrow> hexval (hexdigit n) = Some n"
proof -
  assume "n < 16"
  then have "n \<in> set [0..<16]" by simp
  then show ?thesis
    by (auto simp add: upt_rec hexdigit_def hexval_def)
qed

lemma hexdigit_not_space: "n < 16 \<Longrightarrow> \<not> py_isspace (hexdigit n)"
proof -
  assume "n < 16"
  then have "n \<in> set [0..<16]" by simp
  then show ?thesis
    by (auto simp add: upt_rec hexdigit_def py_isspace_def)
qed

lemma fromhex_hex_byte:
  "fromhex (hex_byte b @ rest) = map_option ((#) b) (fromhex rest)"
proof -
  have hi: "unat b div 16 < 16" using unsigned_less[of b, where ?'a=nat] by simp
  have lo: "unat b mod 16 < 16" by simp
  show ?thesis
    using hexval_hexdigit[OF hi] hexval_hexdigit[OF lo] hexdigit_not_space[OF hi]
    by (simp add: hex_byte_def)
qed

lemma fromhex_hex: "fromhex (hex bs) = Some bs"
  by (induction bs) (simp_all add: hex_def fromhex_hex_byte)

lemma length_hex: "length (hex bs) = 2 * length bs"
  by (induction bs) (simp_all add: hex_def hex_byte_def)

lemma length_sha256: "length (sha256 m) = 32"
  by (simp add: sha256_def digest_bytes_def word_bytes_def split: prod.splits)

lemma length_hexdigest: "length (hexdigest m) = 64"
  by (simp add: hexdigest_def length_hex length_sha256)

text \<open>The digest of \<^verbatim>\<open>b"abc"\<close>, the first example of FIPS 180-4.\<close>

lemma sha256_abc:
  "hexdigest (encode ''abc'')
     = ''ba7816bf8f01cfea414140de5dae2223b00361a396177a9cb410ff61f20015ad''"
  by code_simp

lemma hash_link_hex: "hash_link (hex a) b \<longleftrightarrow> hexdigest a = b"
  by (simp add: hash_link_def fromhex_hex)

subsection \<open>The verification predicate\<close>

lemma linked_Cons2: "linked (a # b # rest) \<longleftrightarrow> hash_link a b \<and> linked (b # rest)"
  by (simp add: linked_def adjacent_pairs_def)

lemma linked_short: "length chain < 2 \<Longrightarrow> linked chain"
  by (cases chain rule: verify_chain.cases) (simp_all add: linked_def adjacent_pairs_def)

lemma verify_chain_linked:
  "\<forall>a\<in>set chain. fromhex a \<noteq> None \<Longrightarrow> verify_chain chain = Inr (linked chain)"
proof (induction chain rule: verify_chain.induct)
  case (1 a b rest)
  then obtain bs where bs: "fromhex a = Some bs" by auto
  show ?case
  proof (cases "hexdigest bs = b")
    case True
    with 1 bs show ?thesis by (simp add: linked_Cons2 hash_link_def)
  next
    case False
    with bs show ?thesis by (simp add: linked_Cons2 hash_link_def)
  qed
qed (simp_all add: linked_short)

lemma verify_chain_short: "length chain < 2 \<Longrightarrow> verify_chain chain = Inr True"
  by (cases chain rule: verify_chain.cases) simp_all

lemma verify_chain_snoc:
  "c \<noteq> [] \<Longrightarrow> verify_chain (map hex c) = Inr True
     \<Longrightarrow> verify_chain (map hex (c @ [sha256 (last c)])) = Inr True"
proof (induction c rule: induct_list012)
  case 1
  then show ?case by simp
next
  case (2 x)
  then show ?case by (simp add: fromhex_hex hexdigest_def)
next
  case (3 x y zs)
  then show ?case by (simp add: fromhex_hex split: if_splits)
qed

lemma verify_chain_loop:
  "c \<noteq> [] \<Longrightarrow> verify_chain (map hex c) = Inr True
     \<Longrightarrow> verify_chain (map hex (chain_loop k c)) = Inr True"
proof (induction k arbitrary: c)
  case 0
  then show ?case by simp
next
  case (Suc k)
  have "verify_chain (map hex (c @ [sha256 (last c)])) = Inr True"
    using Suc.prems by (rule verify_chain_snoc)
  then show ?case using Suc.IH[of "c @ [sha256 (last c)]"] by simp
qed

lemma length_chain_loop: "length (chain_loop k chain) = length chain + k"
  by (induction k arbitrary: chain) simp_all

lemma length_step_chain: "length (BitVM_step_chain seed steps) = Suc (nat steps)"
  by (simp add: BitVM_step_chain_def length_chain_loop)

text \<open>
  The demo block of \<^verbatim>\<open>BitVM.py\<close> (lines 320 to 327) stores the digest of a state and the
  digest of that digest, oldest first, and verifies. A list with an element that is not
  hexadecimal text, before any pair has failed, makes the verification raise.
\<close>

lemma demo_block_verifies:
  "verify_chain [hexdigest (encode ''rollup_state''),
                 hexdigest (sha256 (encode ''rollup_state''))] = Inr True"
  by (simp add: hexdigest_def fromhex_hex)


text \<open>
  C1, as amended. For every seed and every step count, the chain that
  \<open>BitVM_step_chain\<close> returns verifies once it is put back in seed-first order: the
  verification of \<^verbatim>\<open>process_challenge\<close> accepts the hexadecimal text of the reversed
  list.
\<close>

theorem verify_reversed_step_chain:
  "verify_chain (map hex (rev (BitVM_step_chain seed n))) = Inr True"
  by (simp add: BitVM_step_chain_def verify_chain_loop)

text \<open>
  C1 as stated fails: for the seed \<^verbatim>\<open>b'init'\<close> and one step, the list is returned as
  digest then seed, and the verification compares the digest of the digest (64
  characters) with the text of the seed (8 characters).
\<close>

theorem verify_step_chain_counterexample:
  "verify_chain (map hex (BitVM_step_chain (encode ''init'') 1)) = Inr False"
proof -
  have "hexdigest (sha256 (encode ''init'')) \<noteq> hex (encode ''init'')"
  proof
    assume "hexdigest (sha256 (encode ''init'')) = hex (encode ''init'')"
    then have "length (hexdigest (sha256 (encode ''init''))) = length (hex (encode ''init''))"
      by simp
    then show False by (simp add: length_hexdigest length_hex encode_def utf8_def)
  qed
  then show ?thesis
    by (simp add: BitVM_step_chain_def fromhex_hex)
qed

text \<open>
  C2. On a list of hexadecimal texts the verification returns, without raising, the truth
  value of: every adjacent pair \<open>(a, b)\<close> of the list, in its order, satisfies
  \<open>hexdigest (fromhex a) = b\<close>. It is a function of the list alone.
\<close>

theorem verify_chain_iff:
  assumes "\<forall>a\<in>set chain. fromhex a \<noteq> None"
  shows "verify_chain chain = Inr (\<forall>(a, b)\<in>set (zip chain (tl chain)). hash_link a b)"
  using verify_chain_linked[OF assms] by (simp add: linked_def adjacent_pairs_def)

theorem verify_chain_iff_witness:
  "fromhex (hex [1, 2]) \<noteq> None \<and> fromhex (hexdigest [1, 2]) \<noteq> None
   \<and> verify_chain [hex [1, 2], hexdigest [1, 2]] = Inr True
   \<and> fromhex ''00'' \<noteq> None \<and> fromhex ''ff'' \<noteq> None
   \<and> verify_chain [''00'', ''ff''] = Inr False"
proof -
  have v1: "\<forall>a\<in>set [hex [1, 2], hexdigest [1, 2]]. fromhex a \<noteq> None"
    by (simp add: fromhex_hex hexdigest_def)
  have v2: "\<forall>a\<in>set [''00'', ''ff'']. fromhex a \<noteq> None"
    by (simp add: hexval_def py_isspace_def)
  have "fromhex ''00'' = Some [0]"
    by (simp add: hexval_def py_isspace_def)
  moreover have "hexdigest [0] \<noteq> ''ff''"
    using length_hexdigest[of "[0]"] by auto
  ultimately have l2: "\<not> hash_link ''00'' ''ff''"
    by (simp add: hash_link_def)
  show ?thesis
    using v1 v2 l2 verify_chain_iff[OF v1] verify_chain_iff[OF v2]
    by (simp add: hash_link_hex)
qed

subsection \<open>File names\<close>

lemma stem_cases:
  "stem nm = nm \<or> (\<exists>k. k < length nm \<and> stem nm = take k nm \<and> nm ! k = CHR ''.'')"
proof -
  define suf where "suf = takeWhile (\<lambda>c. c \<noteq> CHR ''.'') (rev nm)"
  show ?thesis
  proof (cases "length suf = length nm \<or> suf = [] \<or> Suc (length suf) = length nm")
    case True
    then show ?thesis by (simp add: stem_def suf_def Let_def)
  next
    case False
    have le: "length suf \<le> length nm"
      unfolding suf_def using length_takeWhile_le[of _ "rev nm"] by simp
    with False have lt: "length suf < length (rev nm)" by simp
    then have dot: "rev nm ! length suf = CHR ''.''"
      unfolding suf_def using nth_length_takeWhile[of "\<lambda>c. c \<noteq> CHR ''.''" "rev nm"] by simp
    let ?k = "length nm - Suc (length suf)"
    have k: "?k < length nm" using lt by simp
    have "rev nm ! length suf = nm ! ?k"
      using lt by (simp add: rev_nth)
    with dot have "nm ! ?k = CHR ''.''" by simp
    moreover have "stem nm = take ?k nm"
      using False by (simp add: stem_def suf_def Let_def)
    ultimately show ?thesis using k by blast
  qed
qed

lemma stem_append_neq:
  assumes "s \<noteq> []" "hd s \<noteq> CHR ''.''"
  shows "stem nm @ s \<noteq> nm"
proof
  assume eq: "stem nm @ s = nm"
  from stem_cases[of nm] show False
  proof
    assume "stem nm = nm"
    with eq assms show False by simp
  next
    assume "\<exists>k. k < length nm \<and> stem nm = take k nm \<and> nm ! k = CHR ''.''"
    then obtain k where k: "k < length nm" "stem nm = take k nm" "nm ! k = CHR ''.''" by blast
    have "take k nm @ drop k nm = nm" by (rule append_take_drop_id)
    with eq k have "take k nm @ s = take k nm @ drop k nm" by simp
    then have "s = drop k nm" by (simp only: same_append_eq)
    then have "hd s = nm ! k" using k(1) by (simp add: hd_drop_conv_nth)
    with k(3) assms show False by simp
  qed
qed

lemma proof_out_neq [simp]: "proof_out fp \<noteq> fp" "fp \<noteq> proof_out fp"
  using stem_append_neq[of "''_proof.json''" fp] by (auto simp: proof_out_def)

lemma tree_file_neq [simp]: "tree_file fp \<noteq> fp" "fp \<noteq> tree_file fp"
  using stem_append_neq[of "''_tree.json''" fp] by (auto simp: tree_file_def)

lemma log_file_neq [simp]: "log_file fp \<noteq> fp" "fp \<noteq> log_file fp"
  using stem_append_neq[of "''_log.json''" fp] by (auto simp: log_file_def)

lemma artifact_names_distinct [simp]:
  "proof_out fp \<noteq> tree_file fp" "tree_file fp \<noteq> proof_out fp"
  "proof_out fp \<noteq> log_file fp" "log_file fp \<noteq> proof_out fp"
  "tree_file fp \<noteq> log_file fp" "log_file fp \<noteq> tree_file fp"
  by (simp_all add: proof_out_def tree_file_def log_file_def)

lemma block_file_name_inj [simp]: "block_file_name a = block_file_name b \<longleftrightarrow> a = b"
  by (simp add: block_file_name_def)

lemma stem_json: "x \<noteq> [] \<Longrightarrow> stem (x @ ''.json'') = x"
  by (simp add: stem_def)

lemma artifact_names_of_block:
  "proof_out (block_file_name i) = ''rollup_block_'' @ i @ ''_proof.json''"
  "tree_file (block_file_name i) = ''rollup_block_'' @ i @ ''_tree.json''"
  "log_file (block_file_name i) = ''rollup_block_'' @ i @ ''_log.json''"
  using stem_json[of "''rollup_block_'' @ i"]
  by (simp_all add: proof_out_def tree_file_def log_file_def block_file_name_def)

text \<open>
  The artifact files match the pattern of \<^verbatim>\<open>glob\<close> as the block files do, so the watcher
  reads them on later passes.
\<close>

lemma glob_match_names:
  "glob_match (block_file_name i)"
  "glob_match (proof_out (block_file_name i))"
  "glob_match (tree_file (block_file_name i))"
  "glob_match (log_file (block_file_name i))"
  unfolding artifact_names_of_block
  by (simp_all add: glob_match_def block_file_name_def suffix_def)

lemma suffix_in_id:
  assumes "i @ ''.json'' = j @ CHR ''_'' # r @ ''.json''"
  shows "CHR ''_'' \<in> set i"
proof -
  have "i @ ''.json'' = (j @ CHR ''_'' # r) @ ''.json''" using assms by simp
  then have "i = j @ CHR ''_'' # r" by (simp only: append_same_eq)
  then show ?thesis by simp
qed

text \<open>
  Block ids made of hexadecimal digits, as the computed ids are, give file names that
  are not artifact names of one another.
\<close>

lemma hex_ids_no_clash:
  assumes "\<forall>c\<in>set i. hexval c \<noteq> None"
  shows "block_file_name i \<noteq> proof_out (block_file_name j)"
    and "block_file_name i \<noteq> tree_file (block_file_name j)"
    and "block_file_name i \<noteq> log_file (block_file_name j)"
proof -
  have no: "CHR ''_'' \<notin> set i"
  proof
    assume "CHR ''_'' \<in> set i"
    with assms have "hexval CHR ''_'' \<noteq> None" by blast
    then show False by (simp add: hexval_def)
  qed
  show "block_file_name i \<noteq> proof_out (block_file_name j)"
  proof
    assume "block_file_name i = proof_out (block_file_name j)"
    then have "block_file_name i = ''rollup_block_'' @ j @ ''_proof.json''"
      by (simp only: artifact_names_of_block)
    then have "i @ ''.json'' = j @ CHR ''_'' # ''proof'' @ ''.json''"
      by (simp add: block_file_name_def)
    from suffix_in_id[OF this] no show False by simp
  qed
  show "block_file_name i \<noteq> tree_file (block_file_name j)"
  proof
    assume "block_file_name i = tree_file (block_file_name j)"
    then have "block_file_name i = ''rollup_block_'' @ j @ ''_tree.json''"
      by (simp only: artifact_names_of_block)
    then have "i @ ''.json'' = j @ CHR ''_'' # ''tree'' @ ''.json''"
      by (simp add: block_file_name_def)
    from suffix_in_id[OF this] no show False by simp
  qed
  show "block_file_name i \<noteq> log_file (block_file_name j)"
  proof
    assume "block_file_name i = log_file (block_file_name j)"
    then have "block_file_name i = ''rollup_block_'' @ j @ ''_log.json''"
      by (simp only: artifact_names_of_block)
    then have "i @ ''.json'' = j @ CHR ''_'' # ''log'' @ ''.json''"
      by (simp add: block_file_name_def)
    from suffix_in_id[OF this] no show False by simp
  qed
qed

lemma op_return_script_length: "length (op_return_script blk) \<le> 80"
  by (simp add: op_return_script_def Let_def)

subsection \<open>process\_challenge\<close>

lemma sign_and_log_frame: "m \<noteq> log_file fp \<Longrightarrow> sign_and_log ext blk fp fs m = fs m"
  by (simp add: sign_and_log_def split: signing.splits sum.splits)

lemma process_challenge_Inr:
  "verify_chain (step_data blk) = Inr v \<Longrightarrow>
   process_challenge ext blk fp fs =
     Inr (sign_and_log ext (blk\<lparr>proof_verified := Some v, proof_generated := Some True\<rparr>) fp
            (fs(fp \<mapsto> BlockFile (blk\<lparr>proof_verified := Some v, proof_generated := Some True\<rparr>),
                proof_out fp \<mapsto> ProofFile (step_chain blk) v,
                tree_file fp \<mapsto> TreeFile (script_tree blk))))"
  by (simp add: process_challenge_def Let_def script_tree_def step_data_def)

lemma process_challenge_Inl:
  "verify_chain (step_data blk) = Inl e \<Longrightarrow> process_challenge ext blk fp fs = Inl e"
  by (simp add: process_challenge_def)

lemma process_challenge_block:
  assumes "process_challenge ext blk fp fs = Inr fs'"
  shows "\<exists>v. verify_chain (step_data blk) = Inr v \<and>
           fs' fp = Some (BlockFile (blk\<lparr>proof_verified := Some v, proof_generated := Some True\<rparr>)) \<and>
           fs' (proof_out fp) = Some (ProofFile (step_chain blk) v) \<and>
           fs' (tree_file fp) = Some (TreeFile (script_tree blk))"
proof (cases "verify_chain (step_data blk)")
  case (Inl e)
  with assms show ?thesis by (simp add: process_challenge_Inl)
next
  case (Inr v)
  from assms show ?thesis
    unfolding process_challenge_Inr[OF Inr]
    by (auto simp: Inr sign_and_log_frame)
qed

lemma process_challenge_frame:
  assumes "process_challenge ext blk fp fs = Inr fs'"
    and "m \<noteq> fp" "m \<noteq> proof_out fp" "m \<noteq> tree_file fp" "m \<noteq> log_file fp"
  shows "fs' m = fs m"
proof (cases "verify_chain (step_data blk)")
  case (Inl e)
  with assms show ?thesis by (simp add: process_challenge_Inl)
next
  case (Inr v)
  from assms show ?thesis
    unfolding process_challenge_Inr[OF Inr]
    by (auto simp: sign_and_log_frame)
qed

text \<open>
  C9. When the stored \<^verbatim>\<open>step_chain\<close> has fewer than two elements (or is absent), the
  verification evaluates to true without looking at any element, and
  \<^verbatim>\<open>process_challenge\<close> returns normally, having written the block back with
  \<^verbatim>\<open>proof_verified\<close> and \<^verbatim>\<open>proof_generated\<close> both true and a proof file that records
  \<^verbatim>\<open>verified = true\<close>; no error is raised for the short chain.
\<close>

theorem short_chain_verifies:
  assumes "length (step_data blk) < 2"
  shows "verify_chain (step_data blk) = Inr True \<and>
         (\<exists>fs'. process_challenge ext blk fp fs = Inr fs' \<and>
            fs' fp = Some (BlockFile (blk\<lparr>proof_verified := Some True,
                                         proof_generated := Some True\<rparr>)) \<and>
            fs' (proof_out fp) = Some (ProofFile (step_chain blk) True))"
proof -
  have v: "verify_chain (step_data blk) = Inr True"
    using assms by (rule verify_chain_short)
  show ?thesis
    unfolding process_challenge_Inr[OF v]
    by (simp add: v sign_and_log_frame)
qed

theorem short_chain_verifies_witness:
  "length (step_data (empty_block\<lparr>step_chain := Some [''zz''], challenged := Some True\<rparr>)) < 2
   \<and> verify_chain (step_data (empty_block\<lparr>step_chain := Some [''zz''], challenged := Some True\<rparr>))
       = Inr True
   \<and> (\<exists>fs'. process_challenge SigningFailed
              (empty_block\<lparr>step_chain := Some [''zz''], challenged := Some True\<rparr>)
              ''rollup_block_ab.json'' Map.empty = Inr fs'
          \<and> fs' ''rollup_block_ab.json''
              = Some (BlockFile (empty_block\<lparr>step_chain := Some [''zz''], challenged := Some True,
                                   proof_verified := Some True, proof_generated := Some True\<rparr>))
          \<and> fs' ''rollup_block_ab_proof.json'' = Some (ProofFile (Some [''zz'']) True))"
proof -
  have len: "length (step_data (empty_block\<lparr>step_chain := Some [''zz''], challenged := Some True\<rparr>)) < 2"
    by (simp add: step_data_def)
  have po: "proof_out ''rollup_block_ab.json'' = ''rollup_block_ab_proof.json''"
    by (simp add: proof_out_def stem_def)
  show ?thesis
    using len short_chain_verifies[OF len, of SigningFailed "''rollup_block_ab.json''" Map.empty]
    by (simp add: po)
qed

subsection \<open>One pass of the watcher\<close>













subsection \<open>The spending transaction\<close>

text \<open>
  The main output that line 81 prepares carries \<^verbatim>\<open>amount_sats - fee\<close>, 20999999000
  satoshis; the fee is below the amount. The lemmas below follow the script to the two
  names it reads without binding them.
\<close>

lemma step_script_unbound:
  "step_script None cp opk current_data expected_hash timeout = Inl NameError"
  by (simp add: step_script_def)

lemma build_scripts_unbound:
  assumes "2 \<le> length chain" and "timeouts \<noteq> []"
  shows "build_scripts None cp opk chain timeouts = Inl NameError"
proof -
  have "[0..<length chain - 1] = 0 # [1..<length chain - 1]"
    using assms(1) by (simp add: upt_conv_Cons)
  then show ?thesis
    using assms by (simp add: build_scripts_def step_script_unbound)
qed

lemma lx_prev_txid: "\<exists>h. lx prev_txid = Inr h \<and> length h = 32"
  by (simp add: lx_def prev_txid_def hexval_def)

lemma spend_step_unbound:
  "isl (spend_step None taproot_spk chain timeouts now i)"
  by (simp add: spend_step_def Let_def split: sum.splits)

lemma spend_step_line_84:
  assumes "Suc i < length chain" and "i < length timeouts"
    and "0 \<le> timeouts ! i" and "timeouts ! i \<le> 4294967295"
    and "now < 2 ^ 32" and "i < 255"
  shows "spend_step None taproot_spk chain timeouts now i = Inl NameError"
proof -
  from lx_prev_txid obtain h where h: "lx prev_txid = Inr h" "length h = 32" by blast
  show ?thesis
    using assms h by (simp add: spend_step_def COutPoint_def CTxIn_def log_data_def Let_def)
qed

lemma txout_main_value: "nValue (txout_main taproot_spk) = 20999999000"
  by (simp add: txout_main_def amount_sats_def fee_def)

text \<open>
  C3. The script fixes the amount to 21000000000 and the fee to 1000, so the fee is below
  the amount and the claim promises a transaction whose main output carries their
  difference. The run of \<^verbatim>\<open>PSBTgen.py\<close> builds no transaction: it raises \<^verbatim>\<open>NameError\<close>
  at line 42, in the first round of the loop over the steps, for every key, address
  script and clock. The round of the spending loop does not return either, whatever it
  is given: with the scenario's chain and timeouts and a clock reading of 1700000000 its
  first round gets past line 83 and raises \<^verbatim>\<open>NameError\<close> at line 84, where the
  transaction of line 83 is replaced by one made from the unbound name \<^verbatim>\<open>txout\<close>.
\<close>

theorem PSBTgen_raises_NameError:
  "fee < amount_sats
   \<and> PSBTgen operator_pub challenger_pub to_scriptPubKey clock = Inl NameError
   \<and> isl (spend_step None taproot_spk chain timeouts now i)
   \<and> spend_step None taproot_spk (BitVM_step_chain (encode ''init'') 3) [80, 160, 240]
        1700000000 0 = Inl NameError"
proof -
  have a: "fee < amount_sats" by (simp add: fee_def amount_sats_def)
  have "build_scripts None challenger_pub operator_pub (BitVM_step_chain (encode ''init'') 3)
          [80, 160, 240] = Inl NameError"
    by (rule build_scripts_unbound) (simp_all add: length_step_chain)
  then have b: "PSBTgen operator_pub challenger_pub to_scriptPubKey clock = Inl NameError"
    by (simp add: PSBTgen_def Let_def)
  have c: "isl (spend_step None taproot_spk chain timeouts now i)"
    by (rule spend_step_unbound)
  have d: "spend_step None taproot_spk (BitVM_step_chain (encode ''init'') 3) [80, 160, 240]
        1700000000 0 = Inl NameError"
    by (rule spend_step_line_84) (simp_all add: length_step_chain)
  from a b c d show ?thesis by (intro conjI)
qed

subsection \<open>The scan of the broadcast transaction\<close>

lemma scan_outputs_bound:
  "scan_outputs (Some c) outputs
     = Inr (\<exists>scr\<in>set outputs. prefix ''OP_RETURN'' scr \<and> sublist (hex c) scr)"
  by (induction outputs) auto

text \<open>
  C5. At the input where the claim expects true (an output whose script is
  \<^verbatim>\<open>OP_RETURN\<close> followed by the hexadecimal commitment of the block), the scan of
  lines 209 to 214 reads \<^verbatim>\<open>commitment\<close> before line 224 or 226 has bound it: it raises
  \<^verbatim>\<open>UnboundLocalError\<close>, the \<^verbatim>\<open>except\<close> clause of line 237 catches it, and no log file
  is written.
\<close>

theorem scan_outputs_unbound_commitment:
  "scan_outputs None [''OP_RETURN '' @ hex (commitment_of blk)] = Inl UnboundLocalError
   \<and> sign_and_log (Broadcast tx_hex txid [''OP_RETURN '' @ hex (commitment_of blk)] now)
        blk fp fs = fs"
  by (simp add: sign_and_log_def)

subsection \<open>The block store\<close>

lemma store_rollup_block_db:
  "db (snd (store_rollup_block dumps env block_data block_id st))
      (block_file_name (fst (store_rollup_block dumps env block_data block_id st)))
     = Some (BlockFile block_data)"
  by (simp add: store_rollup_block_def Let_def)

lemma store_rollup_block_history:
  "history (snd (store_rollup_block dumps env block_data block_id st))
     = (if ipfs_found env then history st @ [(add_stdout env, time_now env)] else history st)"
  by (simp add: store_rollup_block_def Let_def)

text \<open>
  C6, as amended. (a) Whatever the pinning collaborator answers, the block record is
  written to the block directory under the returned id. (b) An entry with the handle
  printed by \<^verbatim>\<open>ipfs add\<close> and the clock reading is appended to the history exactly when
  the \<^verbatim>\<open>ipfs\<close> tool is found, whether the pinning then succeeds or fails;
  \<^verbatim>\<open>pin_to_ipfs\<close> returns nothing and its outcome is not consulted.
\<close>

theorem store_rollup_block_effect:
  "db (snd (store_rollup_block dumps env block_data block_id st))
      (block_file_name (fst (store_rollup_block dumps env block_data block_id st)))
     = Some (BlockFile block_data)
   \<and> history (snd (store_rollup_block dumps env block_data block_id st))
     = (if ipfs_found env then history st @ [(add_stdout env, time_now env)] else history st)"
  by (simp only: store_rollup_block_db store_rollup_block_history simp_thms)

text \<open>
  C6 as stated fails: with the tool found and \<^verbatim>\<open>ipfs pin add\<close> failing, the content is
  not pinned and the entry is appended all the same.
\<close>

theorem store_rollup_block_counterexample:
  "\<not> pinned \<lparr>ipfs_found = True, add_stdout = ''Qm'', pin_add_ok = False,
              cluster_status = None, time_now = 7\<rparr>
   \<and> history (snd (store_rollup_block (\<lambda>b. ''{}'')
        \<lparr>ipfs_found = True, add_stdout = ''Qm'', pin_add_ok = False,
          cluster_status = None, time_now = 7\<rparr>
        empty_block None \<lparr>history = [], db = Map.empty\<rparr>)) = [(''Qm'', 7)]"
  by (simp add: pinned_def store_rollup_block_def Let_def)

lemma content_id_take: "take 16 (content_id dumps b) = content_id dumps b"
  by (simp add: content_id_def)

lemma content_id_nonempty: "content_id dumps b \<noteq> []"
  using length_hexdigest[of "encode (dumps b)"] by (auto simp: content_id_def)

lemma store_rollup_block_frame:
  "nm \<noteq> block_file_name (fst (store_rollup_block dumps env block_data block_id st)) \<Longrightarrow>
   db (snd (store_rollup_block dumps env block_data block_id st)) nm = db st nm"
  by (simp add: store_rollup_block_def Let_def)

lemma store_rollup_block_given_id:
  "s \<noteq> [] \<Longrightarrow> fst (store_rollup_block dumps env block_data (Some s) st) = s"
  by (simp add: store_rollup_block_def Let_def)

lemma store_rollup_block_update:
  "db (snd (store_rollup_block dumps env block_data block_id st))
     = (db st)(block_file_name (fst (store_rollup_block dumps env block_data block_id st))
                 \<mapsto> BlockFile block_data)"
  by (simp add: store_rollup_block_def Let_def)

lemma fetch_from_ipfs_Fetched:
  assumes "ipfs_found env"
  shows "fetch_from_ipfs dumps env (Fetched block_data) requested st
           = (block_data,
              snd (store_rollup_block dumps env block_data (Some (content_id dumps block_data)) st))"
  using assms by (simp add: fetch_from_ipfs_def Let_def content_id_def)

text \<open>
  C10. When the \<^verbatim>\<open>ipfs\<close> tool runs and the collaborator delivers a record,
  \<^verbatim>\<open>fetch_from_ipfs\<close> returns the record and writes exactly one file of the block
  directory, the block file of the id recomputed from the record's JSON encoding (16
  characters of the digest), whatever handle was requested. When the first 16 characters
  of the requested handle differ from that id, nothing is written under the requested
  handle or under its 16-character prefix: both files are as they were, and loading by
  the requested handle fails with \<^verbatim>\<open>FileNotFoundError\<close> as it did before. When the tool
  is missing or the collaborator fails, the result is the empty dict and the store is
  unchanged.
\<close>

theorem fetch_from_ipfs_stores_under_content_id:
  "(ipfs_found env \<longrightarrow>
      fst (fetch_from_ipfs dumps env (Fetched block_data) requested st) = block_data
      \<and> db (snd (fetch_from_ipfs dumps env (Fetched block_data) requested st))
          = (db st)(block_file_name (content_id dumps block_data) \<mapsto> BlockFile block_data)
      \<and> (take 16 requested \<noteq> content_id dumps block_data \<longrightarrow>
           db (snd (fetch_from_ipfs dumps env (Fetched block_data) requested st))
              (block_file_name (take 16 requested))
             = db st (block_file_name (take 16 requested))
           \<and> db (snd (fetch_from_ipfs dumps env (Fetched block_data) requested st))
              (block_file_name requested)
             = db st (block_file_name requested)
           \<and> (load_block st requested = Inl FileNotFoundError \<longrightarrow>
                load_block (snd (fetch_from_ipfs dumps env (Fetched block_data) requested st))
                  requested = Inl FileNotFoundError)))
   \<and> (\<not> ipfs_found env \<or> got = FetchRaised e \<longrightarrow>
        fetch_from_ipfs dumps env got requested st = (empty_block, st))"
proof -
  let ?id = "content_id dumps block_data"
  let ?st' = "snd (store_rollup_block dumps env block_data (Some ?id) st)"
  have ne: "?id \<noteq> []" by (rule content_id_nonempty)
  have id: "fst (store_rollup_block dumps env block_data (Some ?id) st) = ?id"
    using ne by (rule store_rollup_block_given_id)
  have upd: "db ?st' = (db st)(block_file_name ?id \<mapsto> BlockFile block_data)"
    using store_rollup_block_update[of dumps env block_data "Some ?id" st] by (simp only: id)
  have neq: "requested \<noteq> ?id" if "take 16 requested \<noteq> ?id"
    using that content_id_take[of dumps block_data] by auto
  have pre: "db ?st' (block_file_name (take 16 requested)) = db st (block_file_name (take 16 requested))"
    if "take 16 requested \<noteq> ?id"
    using that by (simp add: upd)
  have full: "db ?st' (block_file_name requested) = db st (block_file_name requested)"
    if "take 16 requested \<noteq> ?id"
    using neq[OF that] by (simp add: upd)
  have miss: "load_block ?st' requested = Inl FileNotFoundError"
    if "take 16 requested \<noteq> ?id" and "load_block st requested = Inl FileNotFoundError"
    using that(2) full[OF that(1)] by (simp add: load_block_def)
  have ok: "fst (fetch_from_ipfs dumps env (Fetched block_data) requested st) = block_data
      \<and> db (snd (fetch_from_ipfs dumps env (Fetched block_data) requested st))
          = (db st)(block_file_name ?id \<mapsto> BlockFile block_data)
      \<and> (take 16 requested \<noteq> ?id \<longrightarrow>
           db (snd (fetch_from_ipfs dumps env (Fetched block_data) requested st))
              (block_file_name (take 16 requested))
             = db st (block_file_name (take 16 requested))
           \<and> db (snd (fetch_from_ipfs dumps env (Fetched block_data) requested st))
              (block_file_name requested)
             = db st (block_file_name requested)
           \<and> (load_block st requested = Inl FileNotFoundError \<longrightarrow>
                load_block (snd (fetch_from_ipfs dumps env (Fetched block_data) requested st))
                  requested = Inl FileNotFoundError))"
    if "ipfs_found env"
    unfolding fetch_from_ipfs_Fetched[OF that]
    using upd pre full miss by simp
  have fail: "fetch_from_ipfs dumps env got requested st = (empty_block, st)"
    if "\<not> ipfs_found env \<or> got = FetchRaised e"
    using that by (auto simp: fetch_from_ipfs_def)
  from ok fail show ?thesis by blast
qed

lemma hex_byte_chars: "set (hex_byte b) \<subseteq> set ''0123456789abcdef''"
proof -
  have in_digits: "hexdigit n \<in> set ''0123456789abcdef''" if "n < 16" for n
    unfolding hexdigit_def using that by (intro nth_mem) simp
  have "unat b div 16 < 16" using unsigned_less[of b, where ?'a = nat] by simp
  then have hi: "hexdigit (unat b div 16) \<in> set ''0123456789abcdef''" by (rule in_digits)
  have "unat b mod 16 < 16" by simp
  then have lo: "hexdigit (unat b mod 16) \<in> set ''0123456789abcdef''" by (rule in_digits)
  from hi lo show ?thesis by (simp add: hex_byte_def)
qed

lemma hex_chars: "set (hex bs) \<subseteq> set ''0123456789abcdef''"
  unfolding hex_def using hex_byte_chars by (induction bs) auto

lemma content_id_chars: "set (content_id dumps b) \<subseteq> set ''0123456789abcdef''"
  using hex_chars set_take_subset by (fastforce simp: content_id_def hexdigest_def)

theorem fetch_from_ipfs_stores_under_content_id_witness:
  "fst (fetch_from_ipfs (\<lambda>b. ''{}'')
          \<lparr>ipfs_found = True, add_stdout = ''QmYwAPJzv5CZsnA625s3Xf2nemtYgPpHdWEz79ojWnPbdG'',
            pin_add_ok = True, cluster_status = Some 202, time_now = 0\<rparr>
          (Fetched empty_block) ''QmYwAPJzv5CZsnA625s3Xf2nemtYgPpHdWEz79ojWnPbdG''
          \<lparr>history = [], db = Map.empty\<rparr>) = empty_block
   \<and> db (snd (fetch_from_ipfs (\<lambda>b. ''{}'')
          \<lparr>ipfs_found = True, add_stdout = ''QmYwAPJzv5CZsnA625s3Xf2nemtYgPpHdWEz79ojWnPbdG'',
            pin_add_ok = True, cluster_status = Some 202, time_now = 0\<rparr>
          (Fetched empty_block) ''QmYwAPJzv5CZsnA625s3Xf2nemtYgPpHdWEz79ojWnPbdG''
          \<lparr>history = [], db = Map.empty\<rparr>))
       = [block_file_name (content_id (\<lambda>b. ''{}'') empty_block) \<mapsto> BlockFile empty_block]
   \<and> take 16 ''QmYwAPJzv5CZsnA625s3Xf2nemtYgPpHdWEz79ojWnPbdG''
       \<noteq> content_id (\<lambda>b. ''{}'') empty_block
   \<and> db (snd (fetch_from_ipfs (\<lambda>b. ''{}'')
          \<lparr>ipfs_found = True, add_stdout = ''QmYwAPJzv5CZsnA625s3Xf2nemtYgPpHdWEz79ojWnPbdG'',
            pin_add_ok = True, cluster_status = Some 202, time_now = 0\<rparr>
          (Fetched empty_block) ''QmYwAPJzv5CZsnA625s3Xf2nemtYgPpHdWEz79ojWnPbdG''
          \<lparr>history = [], db = Map.empty\<rparr>)) (block_file_name ''QmYwAPJzv5CZsnA6'') = None
   \<and> load_block (snd (fetch_from_ipfs (\<lambda>b. ''{}'')
          \<lparr>ipfs_found = True, add_stdout = ''QmYwAPJzv5CZsnA625s3Xf2nemtYgPpHdWEz79ojWnPbdG'',
            pin_add_ok = True, cluster_status = Some 202, time_now = 0\<rparr>
          (Fetched empty_block) ''QmYwAPJzv5CZsnA625s3Xf2nemtYgPpHdWEz79ojWnPbdG''
          \<lparr>history = [], db = Map.empty\<rparr>))
        ''QmYwAPJzv5CZsnA625s3Xf2nemtYgPpHdWEz79ojWnPbdG'' = Inl FileNotFoundError
   \<and> fetch_from_ipfs (\<lambda>b. ''{}'')
          \<lparr>ipfs_found = True, add_stdout = ''QmYwAPJzv5CZsnA625s3Xf2nemtYgPpHdWEz79ojWnPbdG'',
            pin_add_ok = True, cluster_status = Some 202, time_now = 0\<rparr>
          (FetchRaised JSONDecodeError) ''QmYwAPJzv5CZsnA625s3Xf2nemtYgPpHdWEz79ojWnPbdG''
          \<lparr>history = [], db = Map.empty\<rparr>
       = (empty_block, \<lparr>history = [], db = Map.empty\<rparr>)"
proof -
  let ?d = "\<lambda>b::block. ''{}''"
  let ?h = "''QmYwAPJzv5CZsnA625s3Xf2nemtYgPpHdWEz79ojWnPbdG''"
  let ?env = "\<lparr>ipfs_found = True, add_stdout = ?h, pin_add_ok = True,
               cluster_status = Some 202, time_now = 0\<rparr>"
  let ?st = "\<lparr>history = [], db = Map.empty\<rparr>"
  have ne: "take 16 ?h \<noteq> content_id ?d empty_block"
  proof
    assume a: "take 16 ?h = content_id ?d empty_block"
    have "CHR ''Q'' \<in> set (take 16 ?h)" by simp
    then have "CHR ''Q'' \<in> set ''0123456789abcdef''"
      unfolding a using content_id_chars[of ?d empty_block] by blast
    then show False by simp
  qed
  have nf: "load_block ?st ?h = Inl FileNotFoundError"
    by (simp add: load_block_def)
  have t16: "take 16 ?h = ''QmYwAPJzv5CZsnA6''" by simp
  have found: "ipfs_found ?env" by simp
  show ?thesis
    using ne nf found
      fetch_from_ipfs_stores_under_content_id
        [of ?env ?d empty_block ?h ?st "Fetched empty_block" JSONDecodeError]
      fetch_from_ipfs_stores_under_content_id
        [of ?env ?d empty_block ?h ?st "FetchRaised JSONDecodeError" JSONDecodeError]
    unfolding t16 by simp
qed

subsection \<open>The end-to-end scenario\<close>

lemma length_tapleaves: "length (tapleaves i steps) = length steps"
  by (induction steps arbitrary: i) simp_all

lemma length_script_tree: "length (script_tree blk) = length (step_data blk)"
  by (simp add: script_tree_def length_tapleaves)

lemma verify_chain_tl: "verify_chain (a # rest) = Inr True \<Longrightarrow> verify_chain rest = Inr True"
  by (cases rest) (auto split: option.splits if_splits)

lemma verify_seed_first: "verify_chain (map hex (rev (BitVM_step_chain seed n))) = Inr True"
  by (simp add: BitVM_step_chain_def verify_chain_loop)

lemma verify_digests_only:
  "verify_chain (map hex (tl (rev (BitVM_step_chain seed n)))) = Inr True"
proof -
  have "rev (BitVM_step_chain seed n) \<noteq> []"
    using length_step_chain[of seed n] by auto
  then obtain a rest where ar: "rev (BitVM_step_chain seed n) = a # rest"
    by (cases "rev (BitVM_step_chain seed n)") auto
  have "verify_chain (map hex (a # rest)) = Inr True"
    using verify_seed_first[of seed n] by (simp only: ar)
  then have "verify_chain (hex a # map hex rest) = Inr True" by simp
  then have "verify_chain (map hex rest) = Inr True" by (rule verify_chain_tl)
  then show ?thesis by (simp add: ar)
qed

text \<open>
  The tree of lines 34 to 54 in the scenario: with \<^verbatim>\<open>OP_1\<close> not bound, as in the script,
  its construction raises in the first round; with some binding for \<^verbatim>\<open>OP_1\<close> it has the
  fallback leaf and 3 step leaves.
\<close>

lemma build_tree_unbound:
  "build_tree None cp opk (BitVM_step_chain (encode ''init'') 3) [80, 160, 240] = Inl NameError"
proof -
  have "build_scripts None cp opk (BitVM_step_chain (encode ''init'') 3) [80, 160, 240]
          = Inl NameError"
    by (rule build_scripts_unbound) (simp_all add: length_step_chain)
  then show ?thesis by (simp add: build_tree_def)
qed

lemma scripts_loop_Inr:
  "\<forall>i\<in>set idx. Suc i < length chain \<and> i < length timeouts \<Longrightarrow>
   \<exists>new. scripts_loop (Some one) cp opk chain timeouts idx scripts = Inr (scripts @ new)
         \<and> length new = length idx"
proof (induction idx arbitrary: scripts)
  case Nil
  then show ?case by simp
next
  case (Cons i idx)
  from Cons.prems have i: "Suc i < length chain" "i < length timeouts" by simp_all
  obtain script where
    s: "step_script (Some one) cp opk (chain ! Suc i) (chain ! i) (timeouts ! i) = Inr script"
    by (simp add: step_script_def)
  from Cons.prems have "\<forall>i\<in>set idx. Suc i < length chain \<and> i < length timeouts" by simp
  from Cons.IH[OF this, of "scripts @ [TaprootLeaf script]"] obtain new where
    "scripts_loop (Some one) cp opk chain timeouts idx (scripts @ [TaprootLeaf script])
       = Inr ((scripts @ [TaprootLeaf script]) @ new)"
    "length new = length idx" by blast
  with i s show ?case
    by (intro exI[of _ "TaprootLeaf script # new"]) simp
qed

lemma build_tree_bound:
  "\<exists>scripts. build_tree (Some one) cp opk (BitVM_step_chain (encode ''init'') 3) [80, 160, 240]
                = Inr (TaprootScriptTree (leaf_op opk # scripts))
             \<and> length scripts = 3"
proof -
  let ?chain = "BitVM_step_chain (encode ''init'') 3"
  have len: "length ?chain = 4" by (simp add: length_step_chain)
  have "\<forall>i\<in>set [0..<length ?chain - 1].
          Suc i < length ?chain \<and> i < length [80, 160, 240 :: int]"
    unfolding len by auto
  from scripts_loop_Inr[OF this, of one cp opk "[]"] show ?thesis
    unfolding len by (auto simp: build_tree_def build_scripts_def len)
qed

text \<open>
  C7, as amended. In the scenario with the seed \<^verbatim>\<open>b'init'\<close> and three steps the chain
  has 4 elements. Both the chain stored seed first and its three digests alone verify.
  Processing a challenged block whose stored \<^verbatim>\<open>step_chain\<close> verifies returns normally;
  it writes the block back with \<^verbatim>\<open>proof_verified\<close> and \<^verbatim>\<open>proof_generated\<close> true, one
  proof file and one tree file beside it (and nothing else but a log file, when the
  broadcast succeeds), and the tree file holds one descriptor for each element of the
  stored list: 4 for the block that stores the chain, 3 for the block that stores the
  digests only.
\<close>

theorem end_to_end_counts:
  "length (BitVM_step_chain (encode ''init'') 3) = 4
   \<and> verify_chain (map hex (rev (BitVM_step_chain (encode ''init'') 3))) = Inr True
   \<and> length (map hex (rev (BitVM_step_chain (encode ''init'') 3))) = 4
   \<and> verify_chain (map hex (tl (rev (BitVM_step_chain (encode ''init'') 3)))) = Inr True
   \<and> length (map hex (tl (rev (BitVM_step_chain (encode ''init'') 3)))) = 3
   \<and> (verify_chain stored = Inr True \<longrightarrow>
       (\<exists>fs' descriptors.
         process_challenge ext (blk\<lparr>step_chain := Some stored, challenged := Some True\<rparr>) fp fs
           = Inr fs'
         \<and> fs' fp = Some (BlockFile (blk\<lparr>step_chain := Some stored, challenged := Some True,
                              proof_verified := Some True, proof_generated := Some True\<rparr>))
         \<and> fs' (proof_out fp) = Some (ProofFile (Some stored) True)
         \<and> fs' (tree_file fp) = Some (TreeFile descriptors)
         \<and> length descriptors = length stored
         \<and> (\<forall>m. m \<noteq> fp \<longrightarrow> m \<noteq> proof_out fp \<longrightarrow> m \<noteq> tree_file fp \<longrightarrow> m \<noteq> log_file fp
                \<longrightarrow> fs' m = fs m)))"
proof -
  define chain where "chain = BitVM_step_chain (encode ''init'') 3"
  define b where "b = blk\<lparr>step_chain := Some stored, challenged := Some True\<rparr>"
  have len: "length chain = 4" by (simp add: chain_def length_step_chain)
  have v4: "verify_chain (map hex (rev chain)) = Inr True"
    unfolding chain_def by (rule verify_seed_first)
  have l4: "length (map hex (rev chain)) = 4" using len by simp
  have v3: "verify_chain (map hex (tl (rev chain))) = Inr True"
    unfolding chain_def by (rule verify_digests_only)
  have l3: "length (map hex (tl (rev chain))) = 3" using len by simp
  have sc: "step_chain b = Some stored" by (simp add: b_def)
  have sd: "step_data b = stored" by (simp add: step_data_def sc)
  have proc: "\<exists>fs' descriptors.
         process_challenge ext b fp fs = Inr fs'
         \<and> fs' fp = Some (BlockFile (b\<lparr>proof_verified := Some True, proof_generated := Some True\<rparr>))
         \<and> fs' (proof_out fp) = Some (ProofFile (Some stored) True)
         \<and> fs' (tree_file fp) = Some (TreeFile descriptors)
         \<and> length descriptors = length stored
         \<and> (\<forall>m. m \<noteq> fp \<longrightarrow> m \<noteq> proof_out fp \<longrightarrow> m \<noteq> tree_file fp \<longrightarrow> m \<noteq> log_file fp
                \<longrightarrow> fs' m = fs m)"
    if v: "verify_chain stored = Inr True"
  proof -
    have vb: "verify_chain (step_data b) = Inr True" using v by (simp only: sd)
    obtain fs' where p: "process_challenge ext b fp fs = Inr fs'"
      using process_challenge_Inr[OF vb] by blast
    from process_challenge_block[OF p] vb have
      bf: "fs' fp = Some (BlockFile (b\<lparr>proof_verified := Some True, proof_generated := Some True\<rparr>))"
      and pf: "fs' (proof_out fp) = Some (ProofFile (step_chain b) True)"
      and tf: "fs' (tree_file fp) = Some (TreeFile (script_tree b))" by auto
    have n: "length (script_tree b) = length stored"
      by (simp only: length_script_tree sd)
    have fr: "\<forall>m. m \<noteq> fp \<longrightarrow> m \<noteq> proof_out fp \<longrightarrow> m \<noteq> tree_file fp \<longrightarrow> m \<noteq> log_file fp
                \<longrightarrow> fs' m = fs m"
      using process_challenge_frame[OF p] by blast
    show ?thesis
      using p bf pf tf n fr unfolding sc by blast
  qed
  from len v4 l4 v3 l3 proc show ?thesis
    unfolding chain_def b_def by simp
qed

theorem end_to_end_counts_witness:
  "\<exists>fs' descriptors.
         process_challenge SigningFailed
           (empty_block\<lparr>step_chain := Some (map hex (rev (BitVM_step_chain (encode ''init'') 3))),
                challenged := Some True\<rparr>) ''rollup_block_ab.json'' Map.empty = Inr fs'
         \<and> fs' ''rollup_block_ab.json''
             = Some (BlockFile (empty_block\<lparr>
                  step_chain := Some (map hex (rev (BitVM_step_chain (encode ''init'') 3))),
                  challenged := Some True,
                  proof_verified := Some True, proof_generated := Some True\<rparr>))
         \<and> fs' ''rollup_block_ab_proof.json''
             = Some (ProofFile (Some (map hex (rev (BitVM_step_chain (encode ''init'') 3)))) True)
         \<and> fs' ''rollup_block_ab_tree.json'' = Some (TreeFile descriptors)
         \<and> length descriptors = 4
         \<and> fs' ''rollup_block_cd.json'' = None"
proof -
  let ?stored = "map hex (rev (BitVM_step_chain (encode ''init'') 3))"
  have n: "proof_out ''rollup_block_ab.json'' = ''rollup_block_ab_proof.json''"
    "tree_file ''rollup_block_ab.json'' = ''rollup_block_ab_tree.json''"
    "log_file ''rollup_block_ab.json'' = ''rollup_block_ab_log.json''"
    by (simp_all add: proof_out_def tree_file_def log_file_def stem_def)
  note t = end_to_end_counts[of ?stored SigningFailed empty_block
      "''rollup_block_ab.json''" Map.empty]
  have v: "verify_chain ?stored = Inr True"
    by (rule t[THEN conjunct2, THEN conjunct1])
  have l: "length ?stored = 4"
    by (rule t[THEN conjunct2, THEN conjunct2, THEN conjunct1])
  note imp = t[THEN conjunct2, THEN conjunct2, THEN conjunct2, THEN conjunct2, THEN conjunct2]
  from mp[OF imp v] obtain fs' descriptors where
    a: "process_challenge SigningFailed
           (empty_block\<lparr>step_chain := Some ?stored, challenged := Some True\<rparr>)
           ''rollup_block_ab.json'' Map.empty = Inr fs'"
    and bf: "fs' ''rollup_block_ab.json''
             = Some (BlockFile (empty_block\<lparr>step_chain := Some ?stored, challenged := Some True,
                  proof_verified := Some True, proof_generated := Some True\<rparr>))"
    and b: "fs' ''rollup_block_ab_proof.json'' = Some (ProofFile (Some ?stored) True)"
    and c: "fs' ''rollup_block_ab_tree.json'' = Some (TreeFile descriptors)"
    and d: "length descriptors = length ?stored"
    and e: "\<forall>m. m \<noteq> ''rollup_block_ab.json'' \<longrightarrow> m \<noteq> ''rollup_block_ab_proof.json''
        \<longrightarrow> m \<noteq> ''rollup_block_ab_tree.json'' \<longrightarrow> m \<noteq> ''rollup_block_ab_log.json''
        \<longrightarrow> fs' m = Map.empty m"
    unfolding n by (elim conjE exE)
  from e have f: "fs' ''rollup_block_cd.json'' = None" by simp
  from d l have d4: "length descriptors = 4" by simp
  from a bf b c d4 f show ?thesis by (intro exI conjI)
qed

text \<open>
  C7 as stated fails: for the challenged block that stores the 4 elements of the
  scenario's chain, seed first, the verification returns true and the descriptor list
  written to the tree file has 4 entries, one per chain element, not 3.
\<close>

theorem tree_file_descriptors_counterexample:
  "process_challenge SigningFailed
     (empty_block\<lparr>step_chain := Some (map hex (rev (BitVM_step_chain (encode ''init'') 3))),
        challenged := Some True\<rparr>) ''rollup_block_ab.json'' Map.empty
     = Inr [''rollup_block_ab.json'' \<mapsto>
              BlockFile (empty_block\<lparr>
                step_chain := Some (map hex (rev (BitVM_step_chain (encode ''init'') 3))),
                challenged := Some True,
                proof_verified := Some True, proof_generated := Some True\<rparr>),
            ''rollup_block_ab_proof.json'' \<mapsto>
              ProofFile (Some (map hex (rev (BitVM_step_chain (encode ''init'') 3)))) True,
            ''rollup_block_ab_tree.json'' \<mapsto>
              TreeFile (tapleaves 0 (map hex (rev (BitVM_step_chain (encode ''init'') 3))))]
   \<and> length (tapleaves 0 (map hex (rev (BitVM_step_chain (encode ''init'') 3)))) = 4"
proof -
  let ?stored = "map hex (rev (BitVM_step_chain (encode ''init'') 3))"
  let ?b = "empty_block\<lparr>step_chain := Some ?stored, challenged := Some True\<rparr>"
  have n: "proof_out ''rollup_block_ab.json'' = ''rollup_block_ab_proof.json''"
    "tree_file ''rollup_block_ab.json'' = ''rollup_block_ab_tree.json''"
    by (simp_all add: proof_out_def tree_file_def stem_def)
  have sd: "step_data ?b = ?stored" by (simp add: step_data_def)
  have v: "verify_chain (step_data ?b) = Inr True"
    unfolding sd by (rule verify_seed_first)
  have st: "script_tree ?b = tapleaves 0 ?stored" by (simp add: script_tree_def sd)
  have "length (tapleaves 0 ?stored) = 4"
    by (simp add: length_tapleaves length_step_chain)
  then show ?thesis
    unfolding process_challenge_Inr[OF v] n st
    by (simp add: sign_and_log_def)
qed

subsection \<open>Rounding of products\<close>



























lemma create_punishment_psbt_short_txid:
  "create_punishment_psbt ''00'' 0 (4503599627370496, - 52) = Inl ValueError"
  by code_simp

end
